theory Spec2Isabelle
  imports Complex_Main
begin

section \<open>The RPC calculator: messages, outcomes and handlers of server.py\<close>

text \<open>
  The handlers of \<^verbatim>\<open>CalculatorServicer\<close> and \<^verbatim>\<open>StatsServicer\<close> are embedded as
  functions from the request message to the outcome of the call. Python's integers are
  unbounded and are modelled as \<open>int\<close>; the integer fields of the messages are bounded
  by their declared types, and a constructor refuses a value outside its field.

  The calls \<^verbatim>\<open>log_req\<close> and \<^verbatim>\<open>log_rep\<close> print a line on the console. Each integer they
  format is a field of a received request, a field read back from a reply, or (in
  \<^verbatim>\<open>Factorial\<close>) the accumulator from which the step has just been built; each is
  therefore within the range of a message field, and formatting it cannot fail. The log
  calls and the pacing \<^verbatim>\<open>time.sleep\<close> take no part in what a call returns and are left
  out, as are the time and the memory a computation takes.
\<close>

subsection \<open>Status codes, exceptions and outcomes\<close>

text \<open>The members of \<^verbatim>\<open>grpc.StatusCode\<close> that the sources name.\<close>

datatype StatusCode = INVALID_ARGUMENT | UNAVAILABLE | DEADLINE_EXCEEDED

text \<open>The Python exceptions that a handler can leave unhandled.\<close>

datatype pyexc =
  ZeroDivisionError | TypeError | ValueError | OverflowError | StatisticsError

text \<open>
  A call that fails either was ended by \<^verbatim>\<open>ctx.abort(code, details)\<close>, which raises and
  so runs nothing of the handler after it, or left a Python exception unhandled.
\<close>

datatype error = Abort StatusCode string | Raised pyexc

text \<open>A Python number as \<^verbatim>\<open>pow\<close> returns it: an \<^verbatim>\<open>int\<close> or a \<^verbatim>\<open>float\<close>.
  The value of the float plays no part in what follows and is not kept.\<close>

datatype pynum = PyInt int | PyFloat

subsection \<open>Integer fields\<close>

text \<open>
  The message declarations (demo.proto and the module calculator_pb2 generated from it)
  are not among the sources, so the type of each integer field is a parameter. The scalar
  integer types of Protocol Buffers have 32 or 64 bits and are signed or unsigned
  (\<^verbatim>\<open>sint\<close>, \<^verbatim>\<open>fixed\<close> and \<^verbatim>\<open>sfixed\<close> types share these four ranges).
\<close>

datatype inttype = Int32 | Int64 | UInt32 | UInt64

fun min_value :: "inttype \<Rightarrow> int" where
  "min_value Int32 = - (2 ^ 31)"
| "min_value Int64 = - (2 ^ 63)"
| "min_value UInt32 = 0"
| "min_value UInt64 = 0"

fun max_value :: "inttype \<Rightarrow> int" where
  "max_value Int32 = 2 ^ 31 - 1"
| "max_value Int64 = 2 ^ 63 - 1"
| "max_value UInt32 = 2 ^ 32 - 1"
| "max_value UInt64 = 2 ^ 64 - 1"

definition in_range :: "inttype \<Rightarrow> int \<Rightarrow> bool" where
  "in_range t i \<longleftrightarrow> min_value t \<le> i \<and> i \<le> max_value t"

text \<open>The declared type of every integer field the handlers read or write.\<close>

record schema =
  x_ty :: inttype
  y_ty :: inttype
  result_ty :: inttype
  base_ty :: inttype
  exponent_ty :: inttype
  quotient_ty :: inttype
  remainder_ty :: inttype
  n_ty :: inttype
  step_ty :: inttype
  accumulator_ty :: inttype

text \<open>The declaration that gives every integer field the same type.\<close>

definition uniform :: "inttype \<Rightarrow> schema" where
  "uniform t =
     \<lparr>x_ty = t, y_ty = t, result_ty = t, base_ty = t, exponent_ty = t,
      quotient_ty = t, remainder_ty = t, n_ty = t, step_ty = t,
      accumulator_ty = t\<rparr>"

subsection \<open>Messages\<close>

text \<open>
  Modelled from the spec: the messages of demo.proto, which is not among the sources.
  The fields are the ones the handlers read and write, integers and floating-point
  numbers as in the data model of the specification. The one-letter fields \<^verbatim>\<open>x\<close>, \<^verbatim>\<open>y\<close>,
  \<^verbatim>\<open>n\<close> and \<^verbatim>\<open>v\<close> are prefixed, and \<^verbatim>\<open>quotient\<close> is suffixed, to keep them apart from
  variables and from the constant of that name.
\<close>

record BinaryRequest =
  req_x :: int
  req_y :: int

record BinaryReply =
  result :: int

record PowerRequest =
  base :: int
  exponent :: int

record DivideReply =
  quotient_fld :: int
  remainder :: int

record UnaryRequest =
  req_n :: int

record FactorialStep =
  step :: int
  accumulator :: int

record 'f SampleValue =
  sample_v :: 'f

record 'f StatsReply =
  mean :: 'f
  variance :: 'f

text \<open>A request that arrives holds, in each field, a value of the field's type.\<close>

definition wf_BinaryRequest :: "schema \<Rightarrow> BinaryRequest \<Rightarrow> bool" where
  "wf_BinaryRequest sch req \<longleftrightarrow>
     in_range (x_ty sch) (req_x req) \<and> in_range (y_ty sch) (req_y req)"

definition wf_PowerRequest :: "schema \<Rightarrow> PowerRequest \<Rightarrow> bool" where
  "wf_PowerRequest sch req \<longleftrightarrow>
     in_range (base_ty sch) (base req) \<and> in_range (exponent_ty sch) (exponent req)"

definition wf_UnaryRequest :: "schema \<Rightarrow> UnaryRequest \<Rightarrow> bool" where
  "wf_UnaryRequest sch req \<longleftrightarrow> in_range (n_ty sch) (req_n req)"

text \<open>
  Modelled from the spec: the constructors \<^verbatim>\<open>pb.BinaryReply(result=...)\<close>,
  \<^verbatim>\<open>pb.DivideReply(quotient=..., remainder=...)\<close> and
  \<^verbatim>\<open>pb.FactorialStep(step=..., accumulator=...)\<close> of the generated module, which is not
  among the sources. Their fields are integers in the data model of the specification.
  A generated constructor is code of the Protocol Buffers runtime: it stores a value of
  the field's type and refuses any other, with \<^verbatim>\<open>ValueError\<close> for an \<^verbatim>\<open>int\<close> outside the
  range of the type and with \<^verbatim>\<open>TypeError\<close> for a \<^verbatim>\<open>float\<close>. No property below depends on
  which exception a float meets.
\<close>

fun mk_BinaryReply :: "schema \<Rightarrow> pynum \<Rightarrow> error + BinaryReply" where
  "mk_BinaryReply sch (PyInt i) =
     (if in_range (result_ty sch) i then Inr \<lparr>result = i\<rparr>
      else Inl (Raised ValueError))"
| "mk_BinaryReply sch PyFloat = Inl (Raised TypeError)"

definition mk_DivideReply :: "schema \<Rightarrow> int \<Rightarrow> int \<Rightarrow> error + DivideReply" where
  "mk_DivideReply sch q r =
     (if in_range (quotient_ty sch) q \<and> in_range (remainder_ty sch) r
      then Inr \<lparr>quotient_fld = q, remainder = r\<rparr>
      else Inl (Raised ValueError))"

definition mk_FactorialStep :: "schema \<Rightarrow> int \<Rightarrow> int \<Rightarrow> error + FactorialStep" where
  "mk_FactorialStep sch k acc =
     (if in_range (step_ty sch) k \<and> in_range (accumulator_ty sch) acc
      then Inr \<lparr>step = k, accumulator = acc\<rparr>
      else Inl (Raised ValueError))"

subsection \<open>Python built-ins and library functions the handlers use\<close>

text \<open>
  The least magnitude that does not convert to a \<^verbatim>\<open>float\<close>: a value below it rounds to
  a finite double, a value from it on raises \<^verbatim>\<open>OverflowError\<close>.
\<close>

definition float_limit :: int where
  "float_limit = 2 ^ 1024 - 2 ^ 970"

text \<open>
  \<^verbatim>\<open>pow(base, exponent)\<close> on two integers: the exact integer power when the exponent is
  not negative. Otherwise both operands are converted to floats, which raises
  \<^verbatim>\<open>OverflowError\<close> when one of them is too large; then base zero raises
  \<^verbatim>\<open>ZeroDivisionError\<close>, and any other base yields a float.
\<close>

definition py_pow :: "int \<Rightarrow> int \<Rightarrow> pyexc + pynum" where
  "py_pow b e =
     (if 0 \<le> e then Inr (PyInt (b ^ nat e))
      else if float_limit \<le> \<bar>b\<bar> \<or> float_limit \<le> \<bar>e\<bar> then Inl OverflowError
      else if b = 0 then Inl ZeroDivisionError
      else Inr PyFloat)"

text \<open>\<^verbatim>\<open>range(lo, hi)\<close>: the integers from \<open>lo\<close> up to, and without, \<open>hi\<close>.\<close>

definition py_range :: "int \<Rightarrow> int \<Rightarrow> int list" where
  "py_range lo hi = [lo..hi - 1]"




subsection \<open>Unary handlers\<close>

definition Add :: "schema \<Rightarrow> BinaryRequest \<Rightarrow> error + BinaryReply" where
  "Add sch req = mk_BinaryReply sch (PyInt (req_x req + req_y req))"

definition Subtract :: "schema \<Rightarrow> BinaryRequest \<Rightarrow> error + BinaryReply" where
  "Subtract sch req = mk_BinaryReply sch (PyInt (req_x req - req_y req))"

definition Multiply :: "schema \<Rightarrow> BinaryRequest \<Rightarrow> error + BinaryReply" where
  "Multiply sch req = mk_BinaryReply sch (PyInt (req_x req * req_y req))"

definition Power :: "schema \<Rightarrow> PowerRequest \<Rightarrow> error + BinaryReply" where
  "Power sch req =
     (case py_pow (base req) (exponent req) of
        Inl exc \<Rightarrow> Inl (Raised exc)
      | Inr p \<Rightarrow> mk_BinaryReply sch p)"

text \<open>
  \<^verbatim>\<open>//\<close> and \<^verbatim>\<open>%\<close> on Python integers round the quotient towards minus infinity, as
  \<open>div\<close> and \<open>mod\<close> on \<open>int\<close> do; the divisor is not zero where they are reached.
\<close>

definition Divide :: "schema \<Rightarrow> BinaryRequest \<Rightarrow> error + DivideReply" where
  "Divide sch req =
     (if req_y req = 0
      then Inl (Abort INVALID_ARGUMENT ''Division by zero is not allowed'')
      else mk_DivideReply sch (req_x req div req_y req) (req_x req mod req_y req))"

subsection \<open>The server-streaming handler\<close>

text \<open>
  What a streaming call delivers: the elements yielded, in order, and how the call ended
  (\<open>None\<close> when the generator returned, the error otherwise).
\<close>

datatype 'a stream = Stream (elements: "'a list") (ending: "error option")

text \<open>
  The body of \<^verbatim>\<open>for k in range(0, n + 1)\<close>, with the running value of \<^verbatim>\<open>acc\<close>: the step
  is built and then yielded; when its constructor raises, the stream ends there.
\<close>

fun Factorial_loop :: "schema \<Rightarrow> int list \<Rightarrow> int \<Rightarrow> FactorialStep stream" where
  "Factorial_loop sch [] acc = Stream [] None"
| "Factorial_loop sch (k # ks) acc =
     (let acc' = (if k \<noteq> 0 then acc * k else 1) in
      case mk_FactorialStep sch k acc' of
        Inl err \<Rightarrow> Stream [] (Some err)
      | Inr st \<Rightarrow>
          (case Factorial_loop sch ks acc' of
             Stream es e \<Rightarrow> Stream (st # es) e))"

definition Factorial :: "schema \<Rightarrow> UnaryRequest \<Rightarrow> FactorialStep stream" where
  "Factorial sch req =
     (let n = req_n req in
      if n < 0
      then Stream [] (Some (Abort INVALID_ARGUMENT ''Negative factorial is undefined''))
      else Factorial_loop sch (py_range 0 (n + 1)) 1)"

subsection \<open>The client-streaming handler\<close>

text \<open>
  \<^verbatim>\<open>statistics.mean\<close>, \<^verbatim>\<open>statistics.variance\<close> and the float literal \<^verbatim>\<open>0.0\<close> are taken as
  parameters, over any type \<open>'f\<close> of samples. The request iterator is the finite list of
  the messages the caller sent before it signalled the end of its input.
\<close>

definition DescriptiveStats ::
  "('f list \<Rightarrow> pyexc + 'f) \<Rightarrow> ('f list \<Rightarrow> pyexc + 'f) \<Rightarrow> 'f \<Rightarrow>
   'f SampleValue list \<Rightarrow> error + 'f StatsReply" where
  "DescriptiveStats st_mean st_variance zero req_iter =
     (let vals = map sample_v req_iter in
      if vals = [] then Inl (Abort INVALID_ARGUMENT ''No values supplied'')
      else case st_mean vals of
             Inl exc \<Rightarrow> Inl (Raised exc)
           | Inr m \<Rightarrow>
               (case (if length vals > 1 then st_variance vals else Inr zero) of
                  Inl exc \<Rightarrow> Inl (Raised exc)
                | Inr var \<Rightarrow> Inr \<lparr>mean = m, variance = var\<rparr>))"

subsection \<open>Reading an outcome\<close>

text \<open>The status code that \<^verbatim>\<open>ctx.abort\<close> ended a unary call with, if it was aborted.\<close>

fun abort_code :: "error + 'a \<Rightarrow> StatusCode option" where
  "abort_code (Inl (Abort c m)) = Some c"
| "abort_code (Inl (Raised exc)) = None"
| "abort_code (Inr rep) = None"



text \<open>The steps whose two fields hold the step and its factorial.\<close>

definition step_fits :: "schema \<Rightarrow> int \<Rightarrow> bool" where
  "step_fits sch j \<longleftrightarrow>
     in_range (step_ty sch) j \<and> in_range (accumulator_ty sch) (fact (nat j))"

section \<open>Properties\<close>

subsection \<open>Ranges of the integer fields\<close>

text \<open>
  Every integer type holds the non-negative integers below \<open>2 ^ 31\<close>, and none holds
  an integer below \<open>- (2 ^ 63)\<close> or above \<open>2 ^ 64 - 1\<close>.
\<close>

lemma in_range_small: "0 \<le> i \<Longrightarrow> i \<le> 2 ^ 31 - 1 \<Longrightarrow> in_range t i"
  by (cases t) (simp_all add: in_range_def)

lemma in_range_bounds: "in_range t i \<Longrightarrow> - (2 ^ 63) \<le> i \<and> i \<le> 2 ^ 64 - 1"
  by (cases t) (simp_all add: in_range_def)

lemma in_range_below: "in_range t i \<Longrightarrow> 0 \<le> j \<Longrightarrow> j \<le> i \<Longrightarrow> in_range t j"
  by (cases t) (simp_all add: in_range_def)

subsection \<open>Add, Subtract, Multiply\<close>

text \<open>
  The operands \<open>2 ^ 63\<close> and \<open>2 ^ 63\<close>, which unsigned 64-bit request fields
  carry, have a sum and a product that fit no integer field: whatever the declared
  types, Add and Multiply return no reply for them, the constructor of the reply
  raising. Where every field has the same signed type, the largest value of the type
  and 1 are operands that the request carries and whose sum the reply refuses.
\<close>

theorem Add_overflow_counterexample:
  "(\<forall>sch. Add sch \<lparr>req_x = 2 ^ 63, req_y = 2 ^ 63\<rparr> = Inl (Raised ValueError) \<and>
          Multiply sch \<lparr>req_x = 2 ^ 63, req_y = 2 ^ 63\<rparr> = Inl (Raised ValueError)) \<and>
   wf_BinaryRequest (uniform Int64) \<lparr>req_x = 2 ^ 63 - 1, req_y = 1\<rparr> \<and>
   Add (uniform Int64) \<lparr>req_x = 2 ^ 63 - 1, req_y = 1\<rparr> = Inl (Raised ValueError) \<and>
   wf_BinaryRequest (uniform Int32) \<lparr>req_x = 2 ^ 31 - 1, req_y = 1\<rparr> \<and>
   Add (uniform Int32) \<lparr>req_x = 2 ^ 31 - 1, req_y = 1\<rparr> = Inl (Raised ValueError)"
proof -
  have any: "Add sch \<lparr>req_x = 2 ^ 63, req_y = 2 ^ 63\<rparr> = Inl (Raised ValueError) \<and>
         Multiply sch \<lparr>req_x = 2 ^ 63, req_y = 2 ^ 63\<rparr> = Inl (Raised ValueError)" for sch
  proof -
    have "\<not> in_range (result_ty sch) (2 ^ 63 + 2 ^ 63)"
      using in_range_bounds [of "result_ty sch" "2 ^ 63 + 2 ^ 63"] by auto
    moreover have "\<not> in_range (result_ty sch) (2 ^ 63 * 2 ^ 63)"
      using in_range_bounds [of "result_ty sch" "2 ^ 63 * 2 ^ 63"] by auto
    ultimately show ?thesis
      by (simp add: Add_def Multiply_def)
  qed
  have same: "wf_BinaryRequest (uniform Int64) \<lparr>req_x = 2 ^ 63 - 1, req_y = 1\<rparr>"
    "Add (uniform Int64) \<lparr>req_x = 2 ^ 63 - 1, req_y = 1\<rparr> = Inl (Raised ValueError)"
    "wf_BinaryRequest (uniform Int32) \<lparr>req_x = 2 ^ 31 - 1, req_y = 1\<rparr>"
    "Add (uniform Int32) \<lparr>req_x = 2 ^ 31 - 1, req_y = 1\<rparr> = Inl (Raised ValueError)"
    by (simp_all add: Add_def wf_BinaryRequest_def uniform_def in_range_def)
  from any same show ?thesis
    by blast
qed

text \<open>
  C8 (amended): for all integers \<open>a\<close> and \<open>b\<close> that the request fields carry, Add,
  Subtract and Multiply compute \<open>a + b\<close>, \<open>a - b\<close> and \<open>a * b\<close> exactly, without
  wrap-around; each returns the reply with that result when the result is in the range
  of the result field, and returns no reply otherwise.
\<close>

theorem Add_Subtract_Multiply_exact:
  assumes "wf_BinaryRequest sch \<lparr>req_x = a, req_y = b\<rparr>"
  shows "(if in_range (result_ty sch) (a + b)
          then Add sch \<lparr>req_x = a, req_y = b\<rparr> = Inr \<lparr>result = a + b\<rparr>
          else isl (Add sch \<lparr>req_x = a, req_y = b\<rparr>)) \<and>
         (if in_range (result_ty sch) (a - b)
          then Subtract sch \<lparr>req_x = a, req_y = b\<rparr> = Inr \<lparr>result = a - b\<rparr>
          else isl (Subtract sch \<lparr>req_x = a, req_y = b\<rparr>)) \<and>
         (if in_range (result_ty sch) (a * b)
          then Multiply sch \<lparr>req_x = a, req_y = b\<rparr> = Inr \<lparr>result = a * b\<rparr>
          else isl (Multiply sch \<lparr>req_x = a, req_y = b\<rparr>))"
  by (simp add: Add_def Subtract_def Multiply_def)

theorem Add_Subtract_Multiply_exact_witness:
  "wf_BinaryRequest (uniform Int64) \<lparr>req_x = - 7, req_y = 3\<rparr> \<and>
   Add (uniform Int64) \<lparr>req_x = - 7, req_y = 3\<rparr> = Inr \<lparr>result = - 4\<rparr> \<and>
   Subtract (uniform Int64) \<lparr>req_x = - 7, req_y = 3\<rparr> = Inr \<lparr>result = - 10\<rparr> \<and>
   Multiply (uniform Int64) \<lparr>req_x = - 7, req_y = 3\<rparr> = Inr \<lparr>result = - 21\<rparr> \<and>
   wf_BinaryRequest (uniform Int64) \<lparr>req_x = 2 ^ 63 - 1, req_y = 1\<rparr> \<and>
   isl (Add (uniform Int64) \<lparr>req_x = 2 ^ 63 - 1, req_y = 1\<rparr>)"
  using Add_Subtract_Multiply_exact [of "uniform Int64" "- 7" 3]
    Add_Subtract_Multiply_exact [of "uniform Int64" "2 ^ 63 - 1" 1]
  by (simp add: wf_BinaryRequest_def uniform_def in_range_def)

subsection \<open>Power\<close>

text \<open>
  \<open>2 ^ 64\<close> fits no integer field: whatever the declared types, Power returns no
  reply for base 2 and exponent 64, the constructor of the reply raising.
\<close>

theorem Power_overflow_counterexample:
  "\<forall>sch. Power sch \<lparr>base = 2, exponent = 64\<rparr> = Inl (Raised ValueError)"
proof
  fix sch :: schema
  have "\<not> in_range (result_ty sch) (2 ^ 64)"
    using in_range_bounds [of "result_ty sch" "2 ^ 64"] by auto
  then show "Power sch \<lparr>base = 2, exponent = 64\<rparr> = Inl (Raised ValueError)"
    by (simp add: Power_def py_pow_def)
qed

text \<open>
  C5 (amended): for every base \<open>b\<close> and every exponent \<open>e \<ge> 0\<close> that the request
  fields carry, Power computes the integer \<open>b\<close> to the power \<open>e\<close> exactly; it returns
  the reply with that result when the power is in the range of the result field, and
  returns no reply otherwise.
\<close>

theorem Power_exact:
  assumes "wf_PowerRequest sch \<lparr>base = b, exponent = e\<rparr>" and "0 \<le> e"
  shows "if in_range (result_ty sch) (b ^ nat e)
         then Power sch \<lparr>base = b, exponent = e\<rparr> = Inr \<lparr>result = b ^ nat e\<rparr>
         else isl (Power sch \<lparr>base = b, exponent = e\<rparr>)"
  using assms by (simp add: Power_def py_pow_def)

theorem Power_exact_witness:
  "wf_PowerRequest (uniform Int64) \<lparr>base = - 2, exponent = 3\<rparr> \<and> (0::int) \<le> 3 \<and>
   Power (uniform Int64) \<lparr>base = - 2, exponent = 3\<rparr> = Inr \<lparr>result = - 8\<rparr> \<and>
   wf_PowerRequest (uniform Int64) \<lparr>base = 0, exponent = 0\<rparr> \<and>
   Power (uniform Int64) \<lparr>base = 0, exponent = 0\<rparr> = Inr \<lparr>result = 1\<rparr> \<and>
   wf_PowerRequest (uniform Int64) \<lparr>base = 2, exponent = 63\<rparr> \<and>
   isl (Power (uniform Int64) \<lparr>base = 2, exponent = 63\<rparr>)"
  using Power_exact [of "uniform Int64" "- 2" 3] Power_exact [of "uniform Int64" 0 0]
    Power_exact [of "uniform Int64" 2 63]
  by (simp add: wf_PowerRequest_def uniform_def in_range_def)

text \<open>
  C4: the handler does not check the exponent. For every base and every negative
  exponent it returns no reply, but the call is not aborted with INVALID_ARGUMENT: it
  ends with an exception that nothing handles, raised by \<^verbatim>\<open>pow\<close> or by the constructor
  of the reply.
\<close>

theorem Power_negative_unhandled:
  assumes "e < 0"
  shows "\<exists>exc. Power sch \<lparr>base = b, exponent = e\<rparr> = Inl (Raised exc)"
  using assms by (simp add: Power_def py_pow_def)

theorem Power_negative_unhandled_witness:
  "\<forall>sch. (- 1 :: int) < 0 \<and>
         Power sch \<lparr>base = 0, exponent = - 1\<rparr> = Inl (Raised ZeroDivisionError) \<and>
         abort_code (Power sch \<lparr>base = 0, exponent = - 1\<rparr>) \<noteq> Some INVALID_ARGUMENT \<and>
         abort_code (Power sch \<lparr>base = 2, exponent = - 1\<rparr>) \<noteq> Some INVALID_ARGUMENT"
  using Power_negative_unhandled [of "- 1" _ 0] Power_negative_unhandled [of "- 1" _ 2]
  by (simp add: Power_def py_pow_def float_limit_def)

subsection \<open>Divide\<close>

lemma Divide_reply:
  "b \<noteq> 0 \<Longrightarrow>
   Divide sch \<lparr>req_x = a, req_y = b\<rparr> = mk_DivideReply sch (a div b) (a mod b)"
  by (simp add: Divide_def)

text \<open>
  The quotient of \<open>2 ^ 64 - 1\<close> by \<open>- 1\<close>, operands that an unsigned 64-bit field
  and a signed field carry, fits no integer field: whatever the declared types, Divide
  returns no reply for them. Where every field has the same signed type, the least value
  of the type and \<open>- 1\<close> are operands that the request carries and whose quotient
  the reply refuses.
\<close>

theorem Divide_overflow_counterexample:
  "(\<forall>sch. Divide sch \<lparr>req_x = 2 ^ 64 - 1, req_y = - 1\<rparr> = Inl (Raised ValueError)) \<and>
   wf_BinaryRequest (uniform Int64) \<lparr>req_x = - (2 ^ 63), req_y = - 1\<rparr> \<and>
   Divide (uniform Int64) \<lparr>req_x = - (2 ^ 63), req_y = - 1\<rparr> = Inl (Raised ValueError) \<and>
   wf_BinaryRequest (uniform Int32) \<lparr>req_x = - (2 ^ 31), req_y = - 1\<rparr> \<and>
   Divide (uniform Int32) \<lparr>req_x = - (2 ^ 31), req_y = - 1\<rparr> = Inl (Raised ValueError)"
proof -
  have any: "Divide sch \<lparr>req_x = 2 ^ 64 - 1, req_y = - 1\<rparr> = Inl (Raised ValueError)" for sch
  proof -
    have "\<not> in_range (quotient_ty sch) (- (2 ^ 64 - 1))"
      using in_range_bounds [of "quotient_ty sch" "- (2 ^ 64 - 1)"] by auto
    then show ?thesis
      by (simp add: Divide_def mk_DivideReply_def)
  qed
  have same: "wf_BinaryRequest (uniform Int64) \<lparr>req_x = - (2 ^ 63), req_y = - 1\<rparr>"
    "Divide (uniform Int64) \<lparr>req_x = - (2 ^ 63), req_y = - 1\<rparr> = Inl (Raised ValueError)"
    "wf_BinaryRequest (uniform Int32) \<lparr>req_x = - (2 ^ 31), req_y = - 1\<rparr>"
    "Divide (uniform Int32) \<lparr>req_x = - (2 ^ 31), req_y = - 1\<rparr> = Inl (Raised ValueError)"
    by (simp_all add: Divide_def mk_DivideReply_def wf_BinaryRequest_def uniform_def
        in_range_def)
  from any same show ?thesis
    by blast
qed

text \<open>
  C2 (amended): for all integers \<open>a\<close> and \<open>b \<noteq> 0\<close> that the request fields carry,
  Divide computes the quotient \<open>q\<close>, the floor of the exact quotient \<open>a / b\<close>, and the
  remainder \<open>r\<close> that belongs to it, so that \<open>q * b + r = a\<close>; it returns the reply
  with \<open>q\<close> and \<open>r\<close> when both are in the range of their fields, and returns no reply
  otherwise.
\<close>

theorem Divide_floor:
  assumes "wf_BinaryRequest sch \<lparr>req_x = a, req_y = b\<rparr>" and "b \<noteq> 0"
  shows "\<exists>q r. q = \<lfloor>real_of_int a / real_of_int b\<rfloor> \<and>
               r = a - b * \<lfloor>real_of_int a / real_of_int b\<rfloor> \<and>
               q * b + r = a \<and>
               (if in_range (quotient_ty sch) q \<and> in_range (remainder_ty sch) r
                then Divide sch \<lparr>req_x = a, req_y = b\<rparr> =
                       Inr \<lparr>quotient_fld = q, remainder = r\<rparr>
                else isl (Divide sch \<lparr>req_x = a, req_y = b\<rparr>))"
proof -
  have q: "a div b = \<lfloor>real_of_int a / real_of_int b\<rfloor>"
    by (simp add: floor_divide_of_int_eq)
  have r: "a mod b = a - b * (a div b)"
    by (simp add: minus_mult_div_eq_mod)
  have sum: "a div b * b + a mod b = a"
    by simp
  have run: "if in_range (quotient_ty sch) (a div b) \<and> in_range (remainder_ty sch) (a mod b)
             then Divide sch \<lparr>req_x = a, req_y = b\<rparr> =
                    Inr \<lparr>quotient_fld = a div b, remainder = a mod b\<rparr>
             else isl (Divide sch \<lparr>req_x = a, req_y = b\<rparr>)"
    using assms(2) by (simp add: Divide_reply mk_DivideReply_def)
  show ?thesis
  proof (intro exI conjI)
    show "a div b = \<lfloor>real_of_int a / real_of_int b\<rfloor>" by (rule q)
    show "a mod b = a - b * \<lfloor>real_of_int a / real_of_int b\<rfloor>" using r q by simp
    show "a div b * b + a mod b = a" by (rule sum)
    show "if in_range (quotient_ty sch) (a div b) \<and> in_range (remainder_ty sch) (a mod b)
          then Divide sch \<lparr>req_x = a, req_y = b\<rparr> =
                 Inr \<lparr>quotient_fld = a div b, remainder = a mod b\<rparr>
          else isl (Divide sch \<lparr>req_x = a, req_y = b\<rparr>)" by (rule run)
  qed
qed

theorem Divide_floor_witness:
  "wf_BinaryRequest (uniform Int64) \<lparr>req_x = - 7, req_y = 2\<rparr> \<and> (2::int) \<noteq> 0 \<and>
   Divide (uniform Int64) \<lparr>req_x = - 7, req_y = 2\<rparr> =
     Inr \<lparr>quotient_fld = - 4, remainder = 1\<rparr> \<and>
   Divide (uniform Int64) \<lparr>req_x = 7, req_y = - 2\<rparr> =
     Inr \<lparr>quotient_fld = - 4, remainder = - 1\<rparr> \<and>
   (- 4) * 2 + 1 = (- 7 :: int) \<and> \<lfloor>real_of_int (- 7) / real_of_int 2\<rfloor> = - 4 \<and>
   wf_BinaryRequest (uniform Int64) \<lparr>req_x = - (2 ^ 63), req_y = - 1\<rparr> \<and>
   isl (Divide (uniform Int64) \<lparr>req_x = - (2 ^ 63), req_y = - 1\<rparr>)"
  using Divide_floor [of "uniform Int64" "- 7" 2] Divide_floor [of "uniform Int64" 7 "- 2"]
    Divide_floor [of "uniform Int64" "- (2 ^ 63)" "- 1"]
  by (simp add: Divide_def mk_DivideReply_def wf_BinaryRequest_def uniform_def in_range_def)

text \<open>
  C10: for all integers \<open>a\<close> and \<open>b \<noteq> 0\<close>, the remainder \<open>r\<close> that Divide returns
  lies between zero and the divisor: \<open>0 \<le> r < b\<close> when \<open>b\<close> is positive and
  \<open>b < r \<le> 0\<close> when \<open>b\<close> is negative; so \<open>r\<close> is zero or has the sign of \<open>b\<close>, and
  is smaller than \<open>b\<close> in magnitude. Divide returns a reply exactly when the quotient
  and the remainder are in the range of their fields.
\<close>

theorem Divide_remainder_bound:
  assumes "b \<noteq> 0"
  shows "((\<exists>rep. Divide sch \<lparr>req_x = a, req_y = b\<rparr> = Inr rep) \<longleftrightarrow>
            in_range (quotient_ty sch) (a div b) \<and> in_range (remainder_ty sch) (a mod b)) \<and>
         (\<forall>rep. Divide sch \<lparr>req_x = a, req_y = b\<rparr> = Inr rep \<longrightarrow>
            (if 0 < b then 0 \<le> remainder rep \<and> remainder rep < b
             else b < remainder rep \<and> remainder rep \<le> 0) \<and>
            (remainder rep = 0 \<or> sgn (remainder rep) = sgn b) \<and>
            \<bar>remainder rep\<bar> < \<bar>b\<bar>)"
proof -
  let ?r = "a mod b"
  have bounds: "if 0 < b then 0 \<le> ?r \<and> ?r < b else b < ?r \<and> ?r \<le> 0"
    using assms by simp
  then have sign: "?r = 0 \<or> sgn ?r = sgn b"
    by (auto simp: sgn_if split: if_splits)
  from bounds have mag: "\<bar>?r\<bar> < \<bar>b\<bar>"
    by (auto split: if_splits)
  have returned: "remainder rep = ?r" if "Divide sch \<lparr>req_x = a, req_y = b\<rparr> = Inr rep" for rep
    using that assms by (auto simp: Divide_reply mk_DivideReply_def split: if_splits)
  have replies: "(\<exists>rep. Divide sch \<lparr>req_x = a, req_y = b\<rparr> = Inr rep) \<longleftrightarrow>
            in_range (quotient_ty sch) (a div b) \<and> in_range (remainder_ty sch) (a mod b)"
    using assms by (auto simp: Divide_reply mk_DivideReply_def)
  from replies returned bounds sign mag show ?thesis
    by simp
qed

theorem Divide_remainder_bound_witness:
  "(3::int) \<noteq> 0 \<and> (- 3::int) \<noteq> 0 \<and>
   Divide (uniform Int64) \<lparr>req_x = - 7, req_y = 3\<rparr> =
     Inr \<lparr>quotient_fld = - 3, remainder = 2\<rparr> \<and>
   Divide (uniform Int64) \<lparr>req_x = 7, req_y = - 3\<rparr> =
     Inr \<lparr>quotient_fld = - 3, remainder = - 2\<rparr>"
  using Divide_remainder_bound [of 3 "uniform Int64" "- 7"]
    Divide_remainder_bound [of "- 3" "uniform Int64" 7]
  by (simp add: Divide_def mk_DivideReply_def uniform_def in_range_def)

text \<open>
  The details that the abort carries on a zero divisor are not the string
  \<^verbatim>\<open>division by zero\<close>.
\<close>

theorem Divide_by_zero_message_counterexample:
  "\<forall>sch. Divide sch \<lparr>req_x = 1, req_y = 0\<rparr> \<noteq>
           Inl (Abort INVALID_ARGUMENT ''division by zero'')"
  by (simp add: Divide_def)

text \<open>
  C3 (amended): for every integer \<open>a\<close>, Divide with divisor 0 is aborted with the status
  code INVALID_ARGUMENT and the details \<^verbatim>\<open>Division by zero is not allowed\<close>, before a
  reply is built; there is no reply.
\<close>

theorem Divide_by_zero_aborts:
  "Divide sch \<lparr>req_x = a, req_y = 0\<rparr> =
     Inl (Abort INVALID_ARGUMENT ''Division by zero is not allowed'')"
  by (simp add: Divide_def)

subsection \<open>Factorial\<close>

text \<open>
  \<open>21!\<close> is beyond every integer field, so a factorial that fits its field is that of
  a number up to 20.
\<close>

lemma fact_21: "(fact 21 :: int) = 51090942171709440000"
  by (simp add: fact_numeral)

lemma fact_in_range_le_20:
  assumes "in_range t (fact k)"
  shows "k \<le> 20"
proof (rule ccontr)
  assume "\<not> k \<le> 20"
  then have "21 \<le> k" by simp
  then have "(fact 21 :: int) \<le> fact k" by (rule fact_mono)
  moreover from assms have "(fact k :: int) \<le> 2 ^ 64 - 1"
    using in_range_bounds by blast
  ultimately show False by (simp add: fact_21)
qed

text \<open>
  The loop invariant: entered at \<open>k \<ge> 1\<close> with \<open>(k - 1)!\<close> in \<^verbatim>\<open>acc\<close>, the loop yields
  the steps from \<open>k\<close> on with their factorials as long as they fit their fields, and
  ends with the exception of the constructor at the first step that does not fit.
\<close>

lemma mk_FactorialStep_fact:
  "mk_FactorialStep sch j (fact (nat j)) =
     (if step_fits sch j then Inr \<lparr>step = j, accumulator = fact (nat j)\<rparr>
      else Inl (Raised ValueError))"
  by (simp add: mk_FactorialStep_def step_fits_def)

lemma Factorial_loop_upto:
  "1 \<le> k \<Longrightarrow>
   Factorial_loop sch [k..n] (fact (nat (k - 1))) =
   Stream (map (\<lambda>j. \<lparr>step = j, accumulator = fact (nat j)\<rparr>) (takeWhile (step_fits sch) [k..n]))
          (if list_all (step_fits sch) [k..n] then None else Some (Raised ValueError))"
proof (induction k n rule: upto.induct)
  case (1 i j)
  show ?case
  proof (cases "i \<le> j")
    case False
    then show ?thesis by simp
  next
    case True
    from \<open>1 \<le> i\<close> have pos: "0 < nat i" by simp
    have step_fact: "fact (nat (i - 1)) * i = (fact (nat i) :: int)"
      using \<open>1 \<le> i\<close> pos by (metis fact_reduce int_nat_eq mult.commute nat_diff_distrib nat_one_as_int zero_le_one order_trans nat_1)
    have IH: "Factorial_loop sch [i + 1..j] (fact (nat i)) =
              Stream (map (\<lambda>j. \<lparr>step = j, accumulator = fact (nat j)\<rparr>)
                        (takeWhile (step_fits sch) [i + 1..j]))
                     (if list_all (step_fits sch) [i + 1..j] then None
                      else Some (Raised ValueError))"
      using 1 True by simp
    have unfold: "[i..j] = i # [i + 1..j]"
      using True by (rule upto_rec1)
    show ?thesis
    proof (cases "step_fits sch i")
      case True
      then show ?thesis
        using \<open>1 \<le> i\<close> step_fact IH mk_FactorialStep_fact [of sch i]
        by (simp add: unfold Let_def)
    next
      case False
      then show ?thesis
        using \<open>1 \<le> i\<close> step_fact mk_FactorialStep_fact [of sch i]
        by (simp add: unfold Let_def)
    qed
  qed
qed

lemma Factorial_run:
  assumes "0 \<le> n"
  shows "Factorial sch \<lparr>req_n = n\<rparr> =
         Stream (map (\<lambda>j. \<lparr>step = j, accumulator = fact (nat j)\<rparr>)
                   (takeWhile (step_fits sch) [0..n]))
                (if list_all (step_fits sch) [0..n] then None else Some (Raised ValueError))"
proof -
  have unfold: "[0..n] = 0 # [0 + 1..n]"
    using assms by (rule upto_rec1)
  have rest: "Factorial_loop sch [0 + 1..n] (fact (nat (1 - 1))) =
        Stream (map (\<lambda>j. \<lparr>step = j, accumulator = fact (nat j)\<rparr>)
                  (takeWhile (step_fits sch) [0 + 1..n]))
               (if list_all (step_fits sch) [0 + 1..n] then None
                else Some (Raised ValueError))"
    using Factorial_loop_upto [of 1 sch n] by simp
  have "Factorial_loop sch [0..n] 1 =
        Stream (map (\<lambda>j. \<lparr>step = j, accumulator = fact (nat j)\<rparr>)
                  (takeWhile (step_fits sch) [0..n]))
               (if list_all (step_fits sch) [0..n] then None else Some (Raised ValueError))"
  proof (cases "step_fits sch 0")
    case True
    then show ?thesis
      using rest mk_FactorialStep_fact [of sch 0] by (simp add: unfold)
  next
    case False
    then show ?thesis
      using mk_FactorialStep_fact [of sch 0] by (simp add: unfold)
  qed
  then show ?thesis
    using assms by (simp add: Factorial_def py_range_def)
qed

lemma step_fits_all:
  assumes "0 \<le> n" and "in_range (accumulator_ty sch) (fact (nat n))"
  shows "list_all (step_fits sch) [0..n]"
proof -
  from assms(2) have n20: "nat n \<le> 20" by (rule fact_in_range_le_20)
  have "step_fits sch j" if "0 \<le> j" and "j \<le> n" for j
  proof -
    from that n20 have "j \<le> 2 ^ 31 - 1" by simp
    with that have st: "in_range (step_ty sch) j" by (simp add: in_range_small)
    from that have "nat j \<le> nat n" by simp
    then have "(fact (nat j) :: int) \<le> fact (nat n)" by (rule fact_mono)
    moreover have "(0::int) \<le> fact (nat j)" by simp
    ultimately have "in_range (accumulator_ty sch) (fact (nat j))"
      using assms(2) in_range_below by blast
    with st show ?thesis by (simp add: step_fits_def)
  qed
  then show ?thesis by (simp add: list_all_iff)
qed

lemma takeWhile_shorter:
  "\<not> list_all P xs \<Longrightarrow> length (takeWhile P xs) < length xs"
  by (induction xs) (auto simp: less_Suc_eq_le length_takeWhile_le)

text \<open>
  For \<open>n = 21\<close> the stream does not end normally, whatever the declared types: it
  yields fewer than the 22 elements and then fails, as the accumulator \<open>21!\<close> fits no
  integer field.
\<close>

theorem Factorial_overflow_counterexample:
  "\<forall>sch. ending (Factorial sch \<lparr>req_n = 21\<rparr>) = Some (Raised ValueError) \<and>
         length (elements (Factorial sch \<lparr>req_n = 21\<rparr>)) < 22"
proof
  fix sch :: schema
  have "\<not> in_range (accumulator_ty sch) (fact (nat 21))"
    using fact_in_range_le_20 [of "accumulator_ty sch" "nat 21"] by auto
  then have "\<not> step_fits sch 21"
    by (simp add: step_fits_def)
  then have not_all: "\<not> list_all (step_fits sch) [0..21]"
    by (simp add: list_all_iff) (metis atLeastAtMost_iff order_refl zero_le_numeral)
  have "length (takeWhile (step_fits sch) [0..21]) < length [0..21]"
    using not_all by (rule takeWhile_shorter)
  then have "length (takeWhile (step_fits sch) [0..21]) < 22" by simp
  with not_all show "ending (Factorial sch \<lparr>req_n = 21\<rparr>) = Some (Raised ValueError) \<and>
         length (elements (Factorial sch \<lparr>req_n = 21\<rparr>)) < 22"
    by (simp add: Factorial_run)
qed

text \<open>
  C1 (amended): for every \<open>n \<ge> 0\<close> whose factorial is in the range of the accumulator
  field (so \<open>n\<close> is at most 20), Factorial yields exactly \<open>n + 1\<close> elements and then
  ends normally; their steps are \<open>0, 1, \<dots>, n\<close>, strictly increasing, and the
  accumulator of the element at step \<open>k\<close> is \<open>k!\<close>: it is 1 at step 0, and at every
  later step it is the accumulator of the step before, times \<open>k\<close>.
\<close>

theorem Factorial_stream:
  assumes "0 \<le> n" and "in_range (accumulator_ty sch) (fact (nat n))"
  shows "\<exists>es. Factorial sch \<lparr>req_n = n\<rparr> = Stream es None \<and>
              int (length es) = n + 1 \<and>
              map step es = [0..n] \<and>
              sorted_wrt (<) (map step es) \<and>
              (\<forall>k. k < length es \<longrightarrow> accumulator (es ! k) = fact k) \<and>
              accumulator (es ! 0) = 1 \<and>
              (\<forall>k. 1 \<le> k \<and> k < length es \<longrightarrow>
                   accumulator (es ! k) = accumulator (es ! (k - 1)) * int k)"
proof -
  define es where "es = map (\<lambda>j. \<lparr>step = j, accumulator = fact (nat j)\<rparr>) [0..n]"
  have all: "list_all (step_fits sch) [0..n]"
    using assms by (rule step_fits_all)
  then have tw: "takeWhile (step_fits sch) [0..n] = [0..n]"
    by (simp add: list_all_iff)
  have run: "Factorial sch \<lparr>req_n = n\<rparr> = Stream es None"
    using Factorial_run [OF assms(1), of sch] all unfolding tw es_def by simp
  have len: "int (length es) = n + 1"
    using assms(1) by (simp add: es_def)
  have steps: "map step es = [0..n]"
    by (simp add: es_def comp_def)
  have incr: "sorted_wrt (<) (map step es)"
    unfolding steps by simp
  have acc: "accumulator (es ! k) = fact k" if "k < length es" for k
  proof -
    from that len have "int k \<le> n" by simp
    then have "[0..n] ! k = int k" by simp
    with that show ?thesis by (simp add: es_def)
  qed
  have first: "accumulator (es ! 0) = 1"
    using acc [of 0] len assms(1) by (cases es) simp_all
  have rec: "accumulator (es ! k) = accumulator (es ! (k - 1)) * int k"
    if "1 \<le> k \<and> k < length es" for k
  proof -
    from that have prev: "k - 1 < length es" and pos: "0 < k" by arith+
    from pos have "(fact k :: int) = int k * fact (k - 1)" by (simp add: fact_reduce)
    with that prev show ?thesis
      using acc [of k] acc [of "k - 1"] by (simp add: mult.commute)
  qed
  from run len steps incr acc first rec show ?thesis by blast
qed

theorem Factorial_stream_witness:
  "\<forall>sch. (0::int) \<le> 3 \<and> in_range (accumulator_ty sch) (fact (nat 3)) \<and>
   Factorial sch \<lparr>req_n = 3\<rparr> =
     Stream [\<lparr>step = 0, accumulator = 1\<rparr>, \<lparr>step = 1, accumulator = 1\<rparr>,
             \<lparr>step = 2, accumulator = 2\<rparr>, \<lparr>step = 3, accumulator = 6\<rparr>] None"
proof
  fix sch :: schema
  have fits: "in_range (accumulator_ty sch) (fact (nat 3))"
    by (rule in_range_small) (simp_all add: fact_numeral)
  have small: "in_range t 0" "in_range t 1" "in_range t 2" "in_range t 3"
    "in_range t 6" for t
    by (simp_all add: in_range_small)
  show "(0::int) \<le> 3 \<and> in_range (accumulator_ty sch) (fact (nat 3)) \<and>
   Factorial sch \<lparr>req_n = 3\<rparr> =
     Stream [\<lparr>step = 0, accumulator = 1\<rparr>, \<lparr>step = 1, accumulator = 1\<rparr>,
             \<lparr>step = 2, accumulator = 2\<rparr>, \<lparr>step = 3, accumulator = 6\<rparr>] None"
    using fits Factorial_stream [of 3 sch, OF _ fits] small
    by (simp add: Factorial_def py_range_def upto_rec1 Let_def mk_FactorialStep_def)
qed

text \<open>
  C9: for every \<open>n < 0\<close>, Factorial is aborted with the status code INVALID_ARGUMENT
  before it yields anything: the stream has no element.
\<close>

theorem Factorial_negative:
  assumes "n < 0"
  shows "Factorial sch \<lparr>req_n = n\<rparr> =
           Stream [] (Some (Abort INVALID_ARGUMENT ''Negative factorial is undefined''))"
  using assms by (simp add: Factorial_def)

theorem Factorial_negative_witness:
  "\<forall>sch. (- 1 :: int) < 0 \<and>
   elements (Factorial sch \<lparr>req_n = - 1\<rparr>) = [] \<and>
   ending (Factorial sch \<lparr>req_n = - 1\<rparr>) =
     Some (Abort INVALID_ARGUMENT ''Negative factorial is undefined'')"
  using Factorial_negative [of "- 1"]
  by simp

subsection \<open>DescriptiveStats\<close>

text \<open>
  C7: when the caller ends its input without having sent a sample, DescriptiveStats is
  aborted with the status code INVALID_ARGUMENT, whatever the library functions are;
  there is no reply.
\<close>

theorem DescriptiveStats_empty:
  "DescriptiveStats st_mean st_variance zero [] =
     Inl (Abort INVALID_ARGUMENT ''No values supplied'') \<and>
   abort_code (DescriptiveStats st_mean st_variance zero []) = Some INVALID_ARGUMENT"
  by (simp add: DescriptiveStats_def)








end
